theory Spec2Isabelle
  imports Main "HOL-Library.Multiset" "HOL-Library.AList"
begin

section \<open>Strings\<close>

text \<open>
  The engine works on JavaScript strings. They are modelled as \<^typ>\<open>string\<close> holding ASCII
  text: \<open>toLowerCase\<close> maps the letters \<open>A\<close> to \<open>Z\<close> and leaves every other character alone,
  and the white space of the regular expression class \<open>\s\<close> and of \<open>trim\<close> is tab, line feed,
  vertical tab, form feed, carriage return and space. Beyond ASCII the language knows further
  white space and further letters. The statements on the scores of the search, on the
  documentation text and on the type texts are therefore made for ASCII text: \<open>ascii\<close>
  below.
\<close>

definition isWhiteSpace :: "char \<Rightarrow> bool" where
  "isWhiteSpace c \<longleftrightarrow> c \<in> {CHR 0x09, CHR 0x0A, CHR 0x0B, CHR 0x0C, CHR 0x0D, CHR '' ''}"

definition lowerChar :: "char \<Rightarrow> char" where
  "lowerChar c =
     (case map_of (zip ''ABCDEFGHIJKLMNOPQRSTUVWXYZ'' ''abcdefghijklmnopqrstuvwxyz'') c of
        Some l \<Rightarrow> l
      | None \<Rightarrow> c)"

definition toLowerCase :: "string \<Rightarrow> string" where
  "toLowerCase s = map lowerChar s"

definition ascii :: "string \<Rightarrow> bool" where
  "ascii s \<longleftrightarrow> list_all (\<lambda>c. of_char c < (128::nat)) s"

text \<open>\<open>s.startsWith(p)\<close> and \<open>s.includes(sub)\<close> (named \<open>str_includes\<close> here).\<close>

fun startsWith :: "string \<Rightarrow> string \<Rightarrow> bool" where
  "startsWith s [] = True"
| "startsWith [] (p # ps) = False"
| "startsWith (c # cs) (p # ps) = (c = p \<and> startsWith cs ps)"

fun str_includes :: "string \<Rightarrow> string \<Rightarrow> bool" where
  "str_includes [] sub = (sub = [])"
| "str_includes (c # cs) sub = (startsWith (c # cs) sub \<or> str_includes cs sub)"

text \<open>
  \<open>s.split(/\s+/)\<close>: the text is cut at every maximal run of white space, so a string with
  \<open>n\<close> runs gives \<open>n + 1\<close> pieces. A run at the start or at the end leaves an empty piece
  there, and the empty string gives the one piece \<open>''''\<close>.
\<close>

function split_ws :: "string \<Rightarrow> string list" where
  "split_ws [] = [[]]"
| "split_ws (c # cs) =
     (if isWhiteSpace c then [] # split_ws (dropWhile isWhiteSpace cs)
      else (case split_ws cs of [] \<Rightarrow> [[c]] | t # ts \<Rightarrow> (c # t) # ts))"
  by pat_completeness auto
termination
  by (relation "measure length") (auto simp: le_imp_less_Suc length_dropWhile_le)

text \<open>\<open>s.trim()\<close> and \<open>xs.join(sep)\<close>.\<close>

definition trim :: "string \<Rightarrow> string" where
  "trim s = rev (dropWhile isWhiteSpace (rev (dropWhile isWhiteSpace s)))"

fun join :: "string \<Rightarrow> string list \<Rightarrow> string" where
  "join sep [] = []"
| "join sep [x] = x"
| "join sep (x # y # ys) = x @ sep @ join sep (y # ys)"

text \<open>
  \<open>xs.slice(0, e)\<close>: a negative end counts from the end of the array, and the end is
  clamped to the array.
\<close>

definition slice0 :: "'a list \<Rightarrow> int \<Rightarrow> 'a list" where
  "slice0 xs e =
     (let len = int (length xs);
          k = (if e < 0 then max (len + e) 0 else min e len)
      in take (nat k) xs)"

text \<open>
  \<open>xs.sort((a, b) => key(b) - key(a))\<close>: the array sorted by descending key. The sort of the
  language is stable, so elements of equal key keep their order.
\<close>

definition sort_desc :: "('a \<Rightarrow> int) \<Rightarrow> 'a list \<Rightarrow> 'a list" where
  "sort_desc key xs = sort_key (\<lambda>x. - key x) xs"

section \<open>Regular expressions of the type-text simplification\<close>










section \<open>The data model\<close>

datatype ExtractedKind =
  KInterface | KType | KEnum | KFunction | KClass | KVariable | KNamespace | KReExport

text \<open>The string each kind is at run time.\<close>

fun kind_string :: "ExtractedKind \<Rightarrow> string" where
  "kind_string KInterface = ''interface''"
| "kind_string KType = ''type''"
| "kind_string KEnum = ''enum''"
| "kind_string KFunction = ''function''"
| "kind_string KClass = ''class''"
| "kind_string KVariable = ''variable''"
| "kind_string KNamespace = ''namespace''"
| "kind_string KReExport = ''re-export''"

definition all_kinds :: "ExtractedKind list" where
  "all_kinds = [KInterface, KType, KEnum, KFunction, KClass, KVariable, KNamespace, KReExport]"

text \<open>
  An optional field of the source is an \<^typ>\<open>'a option\<close>: \<open>None\<close> is the field left out of
  the object (\<open>undefined\<close>). Three fields have names that are reserved here: \<open>file\<close> is
  \<open>file_path\<close>, \<open>module\<close> is \<open>moduleName\<close> and \<open>value\<close> is \<open>init_value\<close>. The fields of
  \<open>PropertyInfo\<close> and \<open>TypeParameter\<close> that share a name with a field of \<open>ExtractedType\<close>
  carry the prefix \<open>p_\<close> or \<open>tp_\<close>.
\<close>

record PropertyInfo =
  p_name :: string
  p_type :: string
  p_optional :: bool
  p_readonly :: bool
  p_docs :: "string option"
  isMethod :: bool
  isCallSignature :: bool
  isIndexSignature :: bool
  parameters :: "string list option"
  returnType :: "string option"

record TypeParameter =
  tp_name :: string
  tp_constraint :: "string option"
  tp_default :: "string option"

record ExtractedType =
  name :: string
  kind :: ExtractedKind
  exported :: bool
  file_path :: string
  moduleName :: string
  signature :: string
  fullSignature :: "string option"
  properties :: "PropertyInfo list option"
  methods :: "PropertyInfo list option"
  members :: "string list option"
  typeParameters :: "TypeParameter list option"
  extends :: "string list option"
  implements :: "string list option"
  docs :: "string option"
  init_value :: "string option"
  reExportSource :: "string option"
  lineNumber :: "nat option"

section \<open>Kind filter\<close>

text \<open>
  The outcome of a query: \<open>Inr\<close> is the value returned, \<open>Inl\<close> an abort. The filter value
  is the string the caller passed, since the type \<open>ExtractedKind\<close> of the parameter is not
  checked at run time. \<open>allTypes\<close> is the index, the value of \<open>extractAllTypes()\<close>.
\<close>

datatype query_error = UnrecognizedKind string

definition getTypesByKind :: "ExtractedType list \<Rightarrow> string \<Rightarrow> query_error + ExtractedType list" where
  "getTypesByKind allTypes k = Inr (filter (\<lambda>t. kind_string (kind t) = k) allTypes)"

section \<open>Documentation extraction\<close>

text \<open>
  A documentation comment as the parser hands it over: \<open>getDescription\<close> is the comment's
  description and \<open>getText\<close> its whole source text, tags and delimiters included. Both are
  called through \<open>?.\<close>, so each may be missing (\<open>None\<close>). The argument of \<open>getJsDocs\<close> is
  what the node's own \<open>getJsDocs()\<close> returns, \<open>None\<close> for a node that has no such method.
\<close>

record JSDoc =
  getDescription :: "string option"
  getText :: "string option"

text \<open>\<open>a || b\<close> on strings that may be \<open>undefined\<close>: the empty string is falsy.\<close>

definition js_or :: "string option \<Rightarrow> string option \<Rightarrow> string option" where
  "js_or a b = (case a of Some s \<Rightarrow> (if s = [] then b else Some s) | None \<Rightarrow> b)"

text \<open>\<open>xs.filter(Boolean)\<close>\<close>

fun filterBoolean :: "string option list \<Rightarrow> string list" where
  "filterBoolean [] = []"
| "filterBoolean (None # xs) = filterBoolean xs"
| "filterBoolean (Some s # xs) = (if s = [] then filterBoolean xs else s # filterBoolean xs)"

definition getJsDocs :: "JSDoc list option \<Rightarrow> string option" where
  "getJsDocs node =
     (case node of
        None \<Rightarrow> None
      | Some jsDocs \<Rightarrow>
          if length jsDocs > 0
          then Some (trim (join [CHR 0x0A]
                 (filterBoolean (map (\<lambda>d. js_or (getDescription d) (getText d)) jsDocs))))
          else None)"

section \<open>Re-exports\<close>

text \<open>
  An export declaration as the parser hands it over. An export specifier is its name and,
  when it is aliased, the text of the alias.
\<close>

record ExportSpecifier =
  es_name :: string
  es_alias :: "string option"

record ExportDeclaration =
  getModuleSpecifierValue :: "string option"
  getNamedExports :: "ExportSpecifier list"
  isNamespaceExport :: bool
  getStartLineNumber :: nat

definition extractReExport ::
  "ExportDeclaration \<Rightarrow> string \<Rightarrow> string \<Rightarrow> ExtractedType option" where
  "extractReExport exportDecl file modul =
     (case getModuleSpecifierValue exportDecl of
        None \<Rightarrow> None
      | Some moduleSpecifier \<Rightarrow>
          if moduleSpecifier = [] then None
          else if isNamespaceExport exportDecl then
            Some \<lparr> name = ''* from '' @ [CHR 0x22] @ moduleSpecifier @ [CHR 0x22],
                   kind = KReExport, exported = True, file_path = file, moduleName = modul,
                   signature = ''export * from '' @ [CHR 0x22] @ moduleSpecifier @ [CHR 0x22],
                   fullSignature = None, properties = None, methods = None, members = None,
                   typeParameters = None, extends = None, implements = None, docs = None,
                   init_value = None, reExportSource = Some moduleSpecifier,
                   lineNumber = Some (getStartLineNumber exportDecl) \<rparr>
          else if length (getNamedExports exportDecl) > 0 then
            (let names = map (\<lambda>ne. case es_alias ne of
                                       Some alias \<Rightarrow> es_name ne @ '' as '' @ alias
                                     | None \<Rightarrow> es_name ne)
                             (getNamedExports exportDecl)
             in Some \<lparr> name = ''{ '' @ join '', '' names @ '' } from '' @ [CHR 0x22]
                               @ moduleSpecifier @ [CHR 0x22],
                      kind = KReExport, exported = True, file_path = file, moduleName = modul,
                      signature = ''export { '' @ join '', '' names @ '' } from '' @ [CHR 0x22]
                               @ moduleSpecifier @ [CHR 0x22],
                      fullSignature = None, properties = None, methods = None,
                      members = Some names, typeParameters = None, extends = None,
                      implements = None, docs = None, init_value = None,
                      reExportSource = Some moduleSpecifier,
                      lineNumber = Some (getStartLineNumber exportDecl) \<rparr>)
          else None)"

text \<open>
  The last loop of \<open>extractTypes\<close>: every export declaration of the file is extracted, and
  a record is pushed where one comes back.
\<close>

definition extractReExports ::
  "ExportDeclaration list \<Rightarrow> string \<Rightarrow> string \<Rightarrow> ExtractedType list" where
  "extractReExports exportDecls file modul =
     concat (map (\<lambda>d. case extractReExport d file modul of Some r \<Rightarrow> [r] | None \<Rightarrow> [])
                 exportDecls)"

section \<open>The corpus index and its cache\<close>

text \<open>
  The parser object: the source files of its project, the cache and the source root.
  What it asks of its host is a record of functions: joining paths, adding to the project
  the files on disk that match a pattern, the path of a source file, and the per-file
  normaliser \<open>extractTypes\<close>, which reads the syntax tree of one file. The type \<open>'sf\<close> of
  source files is left open.
\<close>

record 'sf AstParser =
  project :: "'sf list"
  whaileysSrcPath :: string
  cachedTypes :: "ExtractedType list option"

record 'sf host =
  path_join :: "string \<Rightarrow> string \<Rightarrow> string"
  addSourceFilesAtPaths :: "string \<Rightarrow> 'sf list \<Rightarrow> 'sf list"
  getFilePath :: "'sf \<Rightarrow> string"
  extractTypes :: "'sf \<Rightarrow> ExtractedType list"

definition addSourceFiles :: "'sf host \<Rightarrow> string list \<Rightarrow> 'sf AstParser \<Rightarrow> 'sf AstParser" where
  "addSourceFiles h patterns p =
     foldl (\<lambda>q pattern.
              q\<lparr>project := addSourceFilesAtPaths h (path_join h (whaileysSrcPath q) pattern)
                              (project q)\<rparr>)
           p patterns"

text \<open>
  \<open>extractAllTypes\<close> returns the declarations and the parser in its new state. An array is
  truthy even when it is empty, so the test \<open>if (this.cachedTypes)\<close> asks whether the cache
  is set.
\<close>

definition extractAllTypes :: "'sf host \<Rightarrow> 'sf AstParser \<Rightarrow> ExtractedType list \<times> 'sf AstParser" where
  "extractAllTypes h p =
     (case cachedTypes p of
        Some cached \<Rightarrow> (cached, p)
      | None \<Rightarrow>
          (let p1 = addSourceFiles h [''**/*.ts''] p;
               types = foldl (\<lambda>types sourceFile.
                                 let filePath = getFilePath h sourceFile
                                 in if str_includes filePath ''Tests'' \<or> str_includes filePath ''.d.ts''
                                    then types
                                    else types @ extractTypes h sourceFile)
                             [] (project p1)
           in (types, p1\<lparr>cachedTypes := Some types\<rparr>)))"

section \<open>Fuzzy search\<close>

text \<open>The score of one candidate: the body of the callback of \<open>allTypes.map\<close>.\<close>

definition fuzzyScore :: "string \<Rightarrow> string list \<Rightarrow> ExtractedType \<Rightarrow> int" where
  "fuzzyScore lowerQuery words t =
     (let lowerName = toLowerCase (name t);
          lowerDocs = toLowerCase (case docs t of Some d \<Rightarrow> d | None \<Rightarrow> []);
          score = (if lowerName = lowerQuery then 100
                   else if startsWith lowerName lowerQuery then 50
                   else if str_includes lowerName lowerQuery then 25
                   else 0)
      in foldl (\<lambda>score word.
                  (let score1 = (if str_includes lowerName word then score + 10 else score)
                   in if str_includes lowerDocs word then score1 + 5 else score1))
               score words)"

text \<open>\<open>maxResults\<close> is \<open>None\<close> when the caller leaves it out; the default is 20.\<close>

definition fuzzySearch :: "ExtractedType list \<Rightarrow> string \<Rightarrow> int option \<Rightarrow> ExtractedType list" where
  "fuzzySearch allTypes query maxResults =
     (let lowerQuery = toLowerCase query;
          words = split_ws lowerQuery;
          scored = map (\<lambda>t. (t, fuzzyScore lowerQuery words t)) allTypes
      in map fst
           (slice0 (sort_desc snd (filter (\<lambda>s. snd s > 0) scored))
                   (case maxResults of None \<Rightarrow> 20 | Some n \<Rightarrow> n)))"

section \<open>Statistics\<close>

text \<open>The field \<open>functions\<close> of the source is \<open>functions_n\<close> here and \<open>module\<close> is \<open>ms_module\<close>.\<close>

record ModuleStatistics =
  ms_module :: string
  interfaces :: nat
  types :: nat
  enums :: nat
  functions_n :: nat
  classes :: nat
  variables :: nat
  namespaces :: nat
  reExports :: nat
  total :: nat

record LibraryStatistics =
  totalDeclarations :: nat
  byKind :: "ExtractedKind \<rightharpoonup> nat"
  byModule :: "ModuleStatistics list"
  topInterfaces :: "string list"
  topTypes :: "string list"
  topFunctions :: "string list"

text \<open>The object literal \<open>byKind\<close> starts from: all eight keys, each at zero.\<close>

definition byKind_init :: "ExtractedKind \<rightharpoonup> nat" where
  "byKind_init =
     [KInterface \<mapsto> 0, KType \<mapsto> 0, KEnum \<mapsto> 0, KFunction \<mapsto> 0, KClass \<mapsto> 0,
      KVariable \<mapsto> 0, KNamespace \<mapsto> 0, KReExport \<mapsto> 0]"

text \<open>
  \<open>byKind[k]++\<close>. A missing key would not be counted; every key is there from the start
  and stays (lemma \<open>byKind_stats_loop\<close>).
\<close>

definition bump :: "(ExtractedKind \<rightharpoonup> nat) \<Rightarrow> ExtractedKind \<Rightarrow> (ExtractedKind \<rightharpoonup> nat)" where
  "bump m k = (case m k of Some n \<Rightarrow> m(k \<mapsto> n + 1) | None \<Rightarrow> m)"

definition empty_stats :: "string \<Rightarrow> ModuleStatistics" where
  "empty_stats m =
     \<lparr> ms_module = m, interfaces = 0, types = 0, enums = 0, functions_n = 0, classes = 0,
       variables = 0, namespaces = 0, reExports = 0, total = 0 \<rparr>"

text \<open>The \<open>switch\<close> on the kind.\<close>

fun count_kind :: "ExtractedKind \<Rightarrow> ModuleStatistics \<Rightarrow> ModuleStatistics" where
  "count_kind KInterface st = st\<lparr>interfaces := interfaces st + 1\<rparr>"
| "count_kind KType st = st\<lparr>types := types st + 1\<rparr>"
| "count_kind KEnum st = st\<lparr>enums := enums st + 1\<rparr>"
| "count_kind KFunction st = st\<lparr>functions_n := functions_n st + 1\<rparr>"
| "count_kind KClass st = st\<lparr>classes := classes st + 1\<rparr>"
| "count_kind KVariable st = st\<lparr>variables := variables st + 1\<rparr>"
| "count_kind KNamespace st = st\<lparr>namespaces := namespaces st + 1\<rparr>"
| "count_kind KReExport st = st\<lparr>reExports := reExports st + 1\<rparr>"

text \<open>
  \<open>moduleMap\<close> is a \<open>Map\<close>, which keeps its keys in the order they were first set: an
  association list, where \<open>AList.update\<close> replaces the entry of a key in place and puts a new
  key at the end. One round of the loop over \<open>allTypes\<close>; the entry read back after it was
  set is always there.
\<close>

definition stats_step ::
  "(ExtractedKind \<rightharpoonup> nat) \<times> (string \<times> ModuleStatistics) list \<Rightarrow> ExtractedType
     \<Rightarrow> (ExtractedKind \<rightharpoonup> nat) \<times> (string \<times> ModuleStatistics) list" where
  "stats_step acc t =
     (let byKind1 = bump (fst acc) (kind t);
          moduleMap1 = (if map_of (snd acc) (moduleName t) = None
                        then AList.update (moduleName t) (empty_stats (moduleName t)) (snd acc)
                        else snd acc)
      in case map_of moduleMap1 (moduleName t) of
           None \<Rightarrow> (byKind1, moduleMap1)
         | Some stats \<Rightarrow>
             (byKind1,
              AList.update (moduleName t)
                (count_kind (kind t) (stats\<lparr>total := total stats + 1\<rparr>)) moduleMap1))"

definition stats_loop ::
  "ExtractedType list \<Rightarrow> (ExtractedKind \<rightharpoonup> nat) \<times> (string \<times> ModuleStatistics) list" where
  "stats_loop allTypes = foldl stats_step (byKind_init, []) allTypes"

definition getStatistics :: "ExtractedType list \<Rightarrow> LibraryStatistics" where
  "getStatistics allTypes =
     (let acc = stats_loop allTypes
      in \<lparr> totalDeclarations = length allTypes,
           byKind = fst acc,
           byModule = sort_desc (\<lambda>a. int (total a)) (map snd (snd acc)),
           topInterfaces = map name (take 10 (filter (\<lambda>t. kind t = KInterface) allTypes)),
           topTypes = map name (take 10 (filter (\<lambda>t. kind t = KType) allTypes)),
           topFunctions = map name (take 10 (filter (\<lambda>t. kind t = KFunction) allTypes)) \<rparr>)"

section \<open>Inheritance hierarchy\<close>

record Hierarchy =
  h_type :: ExtractedType
  parents :: "string list"
  children :: "string list"

text \<open>\<open>t.extends?.some((e) => e.includes(n))\<close>: a missing list has no such element.\<close>

definition some_includes :: "string list option \<Rightarrow> string \<Rightarrow> bool" where
  "some_includes xs n = (case xs of None \<Rightarrow> False | Some es \<Rightarrow> list_ex (\<lambda>e. str_includes e n) es)"

definition getTypeHierarchy :: "ExtractedType list \<Rightarrow> string \<Rightarrow> Hierarchy option" where
  "getTypeHierarchy allTypes typeName =
     (case find (\<lambda>t. toLowerCase (name t) = toLowerCase typeName) allTypes of
        None \<Rightarrow> None
      | Some ty \<Rightarrow>
          (let parents0 = (case extends ty of Some es \<Rightarrow> es | None \<Rightarrow> []);
               parents1 = parents0 @ (case implements ty of Some is \<Rightarrow> is | None \<Rightarrow> []);
               children1 = foldl (\<lambda>children t.
                                    (let c1 = (if some_includes (extends t) (name ty)
                                               then children @ [name t] else children)
                                     in if some_includes (implements t) (name ty)
                                        then c1 @ [name t] else c1))
                                 [] allTypes
           in Some \<lparr> h_type = ty, parents = parents1, children = children1 \<rparr>))"

section \<open>The specification's wording\<close>

text \<open>
  The tokens of a text as the specification words them: the words that white space
  separates, that is, the maximal runs of characters that are not white space. No token is
  empty.
\<close>

function spec_tokens :: "string \<Rightarrow> string list" where
  "spec_tokens [] = []"
| "spec_tokens (c # cs) =
     (if isWhiteSpace c then spec_tokens cs
      else (c # takeWhile (\<lambda>x. \<not> isWhiteSpace x) cs)
             # spec_tokens (dropWhile (\<lambda>x. \<not> isWhiteSpace x) cs))"
  by pat_completeness auto
termination
  by (relation "measure length") (auto simp: le_imp_less_Suc length_dropWhile_le)

text \<open>
  Fuzzy search as the specification words it. The score of a candidate for a query: the
  bonus of the whole query (100 for a name equal to it, else 50 for a name that starts with
  it, else 25 for a name that contains it) plus, for every token of the query, 10 when the
  name contains the token and 5 when the documentation text does, all without regard to
  case.
\<close>

definition spec_score :: "string \<Rightarrow> ExtractedType \<Rightarrow> int" where
  "spec_score q t =
     (let n = toLowerCase (name t);
          d = toLowerCase (case docs t of Some d \<Rightarrow> d | None \<Rightarrow> []);
          lq = toLowerCase q
      in (if n = lq then 100 else if startsWith n lq then 50
          else if str_includes n lq then 25 else 0)
         + (\<Sum>w\<leftarrow>spec_tokens q. (if str_includes n (toLowerCase w) then 10 else 0)
                                 + (if str_includes d (toLowerCase w) then 5 else 0)))"

text \<open>
  \<open>r\<close> ranks the index by a score: it holds the candidates of positive score and only them,
  each as often as the index does; the scores descend along it; and the candidates of one
  score stand in index order.
\<close>

definition spec_ranked ::
  "(ExtractedType \<Rightarrow> int) \<Rightarrow> ExtractedType list \<Rightarrow> ExtractedType list \<Rightarrow> bool" where
  "spec_ranked score idx r \<longleftrightarrow>
     mset r = mset (filter (\<lambda>t. score t > 0) idx) \<and>
     sorted_wrt (\<lambda>a b. score a \<ge> score b) r \<and>
     (\<forall>k. filter (\<lambda>t. score t = k) r = filter (\<lambda>t. score t = k \<and> k > 0) idx)"

text \<open>
  Where a query differs from its tokens: the number of empty pieces around them. There is
  one in front when the query is empty or starts with white space, and one behind when it
  ends with white space.
\<close>

definition empty_pieces :: "string \<Rightarrow> nat" where
  "empty_pieces q =
     (if q = [] \<or> isWhiteSpace (hd q) then 1 else 0)
     + (if q \<noteq> [] \<and> isWhiteSpace (last q) then 1 else 0)"

text \<open>A declaration whose name and documentation are ASCII text.\<close>

definition ascii_decl :: "ExtractedType \<Rightarrow> bool" where
  "ascii_decl t \<longleftrightarrow> ascii (name t) \<and> ascii (case docs t of Some d \<Rightarrow> d | None \<Rightarrow> [])"

text \<open>
  Statistics: the sum of the eight counts of \<open>byKind\<close>, a missing key counting as nothing.
\<close>

definition byKind_sum :: "LibraryStatistics \<Rightarrow> nat" where
  "byKind_sum st = (\<Sum>k\<leftarrow>all_kinds. case byKind st k of Some n \<Rightarrow> n | None \<Rightarrow> 0)"

text \<open>
  A re-exported name as the specification renders it: the name, or \<open>original as alias\<close>.
\<close>

definition spec_rendered :: "ExportSpecifier \<Rightarrow> string" where
  "spec_rendered ne =
     (case es_alias ne of None \<Rightarrow> es_name ne | Some a \<Rightarrow> es_name ne @ '' as '' @ a)"

text \<open>
  The documentation of a node as the specification words it: absent without documentation
  comments, else the descriptions of the comments joined by newlines.
\<close>

definition spec_docs :: "JSDoc list option \<Rightarrow> string option" where
  "spec_docs node =
     (case node of
        None \<Rightarrow> None
      | Some ds \<Rightarrow>
          if ds = [] then None
          else Some (join [CHR 0x0A]
                 (map (\<lambda>d. case getDescription d of Some s \<Rightarrow> s | None \<Rightarrow> []) ds)))"

text \<open>
  A text is blank when it holds white space only. A documentation comment is ASCII when its
  description and its whole text are.
\<close>

definition blank :: "string \<Rightarrow> bool" where
  "blank s \<longleftrightarrow> list_all isWhiteSpace s"

definition ascii_doc :: "JSDoc \<Rightarrow> bool" where
  "ascii_doc d \<longleftrightarrow>
     ascii (case getDescription d of Some s \<Rightarrow> s | None \<Rightarrow> []) \<and>
     ascii (case getText d of Some t \<Rightarrow> t | None \<Rightarrow> [])"






section \<open>Notions of the proofs\<close>


text \<open>
  The score of \<open>fuzzyScore\<close> in closed form: the loop over the pieces of the query written
  as a sum.
\<close>

definition code_score :: "string \<Rightarrow> ExtractedType \<Rightarrow> int" where
  "code_score q t =
     (let n = toLowerCase (name t);
          d = toLowerCase (case docs t of Some d \<Rightarrow> d | None \<Rightarrow> []);
          lq = toLowerCase q
      in (if n = lq then 100 else if startsWith n lq then 50
          else if str_includes n lq then 25 else 0)
         + (\<Sum>w\<leftarrow>split_ws lq. (if str_includes n w then 10 else 0)
                                + (if str_includes d w then 5 else 0)))"

text \<open>
  The invariant of \<open>moduleMap\<close> along the loop of \<open>getStatistics\<close>: no key twice, and every
  entry records its own key as its module. \<open>entry_of\<close> is the entry the loop works on: the one
  stored under the key, or the fresh one it sets first.
\<close>

definition mm_ok :: "(string \<times> ModuleStatistics) list \<Rightarrow> bool" where
  "mm_ok mm \<longleftrightarrow> distinct (map fst mm) \<and> (\<forall>(k, v)\<in>set mm. ms_module v = k)"

definition entry_of :: "(string \<times> ModuleStatistics) list \<Rightarrow> string \<Rightarrow> ModuleStatistics" where
  "entry_of mm k = (case map_of mm k of None \<Rightarrow> empty_stats k | Some w \<Rightarrow> w)"

text \<open>
  The text one documentation comment contributes in the source: its description, or its
  whole text when the description is empty or missing.
\<close>

definition doc_text :: "JSDoc \<Rightarrow> string" where
  "doc_text d =
     (case getDescription d of
        Some s \<Rightarrow> if s \<noteq> [] then s else (case getText d of Some t \<Rightarrow> t | None \<Rightarrow> [])
      | None \<Rightarrow> (case getText d of Some t \<Rightarrow> t | None \<Rightarrow> []))"

text \<open>
  The children of a name, as a list built at once: what the loop of \<open>getTypeHierarchy\<close>
  appends.
\<close>

definition children_of :: "ExtractedType list \<Rightarrow> string \<Rightarrow> string list" where
  "children_of idx n =
     concat (map (\<lambda>t. (if some_includes (extends t) n then [name t] else [])
                      @ (if some_includes (implements t) n then [name t] else [])) idx)"

section \<open>Example data\<close>

text \<open>An index entry for examples: only the fields that queries read are set.\<close>

definition ex_decl :: "string \<Rightarrow> ExtractedKind \<Rightarrow> string \<Rightarrow> ExtractedType" where
  "ex_decl n k m =
     \<lparr> name = n, kind = k, exported = True, file_path = m @ ''/index.ts'', moduleName = m,
       signature = kind_string k @ '' '' @ n, fullSignature = None, properties = None,
       methods = None, members = None, typeParameters = None, extends = None,
       implements = None, docs = None, init_value = None, reExportSource = None,
       lineNumber = None \<rparr>"

definition ex_index :: "ExtractedType list" where
  "ex_index =
     [ex_decl ''Baz'' KType ''Types'',
      ex_decl ''FooBar'' KInterface ''Types'',
      (ex_decl ''MyFoo'' KClass ''Utils'')\<lparr>docs := Some ''wraps a foo''\<rparr>,
      ex_decl ''Foo'' KInterface ''Types'']"

text \<open>
  Two hosts over source files that are their own paths. Under the first, the source root
  holds a test file and a declaration file only, so the index is empty; the second stands
  for the same root at a later time, when it holds another file.
\<close>

definition ex_host_empty :: "string host" where
  "ex_host_empty =
     \<lparr> path_join = (\<lambda>a b. a @ ''/'' @ b),
       addSourceFilesAtPaths = (\<lambda>pattern files. files @ [''/src/Tests/a.ts'', ''/src/b.d.ts'']),
       getFilePath = (\<lambda>f. f),
       extractTypes = (\<lambda>f. [ex_decl f KVariable ''root'']) \<rparr>"

definition ex_host_later :: "string host" where
  "ex_host_later =
     \<lparr> path_join = (\<lambda>a b. a @ ''/'' @ b),
       addSourceFilesAtPaths = (\<lambda>pattern files. files @ [''/src/new.ts'']),
       getFilePath = (\<lambda>f. f),
       extractTypes = (\<lambda>f. [ex_decl f KVariable ''root'']) \<rparr>"

definition ex_parser :: "string AstParser" where
  "ex_parser = \<lparr> project = [], whaileysSrcPath = ''/src'', cachedTypes = None \<rparr>"

text \<open>The export declarations \<open>export * from "./a"\<close> and \<open>export { x, y as z } from "./b"\<close>.\<close>

definition ex_export_star :: ExportDeclaration where
  "ex_export_star =
     \<lparr> getModuleSpecifierValue = Some ''./a'', getNamedExports = [],
       isNamespaceExport = True, getStartLineNumber = 1 \<rparr>"

definition ex_export_named :: ExportDeclaration where
  "ex_export_named =
     \<lparr> getModuleSpecifierValue = Some ''./b'',
       getNamedExports = [\<lparr> es_name = ''x'', es_alias = None \<rparr>,
                          \<lparr> es_name = ''y'', es_alias = Some ''z'' \<rparr>],
       isNamespaceExport = False, getStartLineNumber = 2 \<rparr>"

text \<open>
  Documentation comments: one that holds a tag only, a comment with a description followed
  by one that holds a tag only, one that holds a tag only behind a blank first line, whose
  description is a line feed, and a pair of comments with descriptions, the first over
  several lines.
\<close>

definition ex_doc_tag_only :: "JSDoc list option" where
  "ex_doc_tag_only = Some [\<lparr> getDescription = Some [], getText = Some ''/** @deprecated */'' \<rparr>]"

definition ex_doc_mixed :: "JSDoc list option" where
  "ex_doc_mixed =
     Some [\<lparr> getDescription = Some ''Sends a message.'',
              getText = Some ''/** Sends a message. */'' \<rparr>,
           \<lparr> getDescription = Some [], getText = Some ''/** @internal */'' \<rparr>]"

definition ex_doc_blank :: "JSDoc list option" where
  "ex_doc_blank =
     Some [\<lparr> getDescription = Some [CHR 0x0A],
              getText = Some (''/**'' @ [CHR 0x0A] @ '' * @deprecated'' @ [CHR 0x0A] @ '' */'') \<rparr>]"

definition ex_doc_two :: "JSDoc list option" where
  "ex_doc_two =
     Some [\<lparr> getDescription = Some (CHR 0x0A # ''Sends a message.''),
              getText = Some ''/** Sends a message. */'' \<rparr>,
           \<lparr> getDescription = Some ''Returns the id.'',
              getText = Some ''/** Returns the id. @public */'' \<rparr>]"

text \<open>
  An index where a variable and an interface have names that differ by case only, and one
  with a declaration that refers to itself and one that extends and implements the same name.
\<close>

definition ex_hier_case :: "ExtractedType list" where
  "ex_hier_case =
     [ex_decl ''socket'' KVariable ''Socket'',
      ex_decl ''Socket'' KInterface ''Types'',
      (ex_decl ''Client'' KClass ''Socket'')\<lparr>extends := Some [''Socket'']\<rparr>]"

definition ex_hier :: "ExtractedType list" where
  "ex_hier =
     [(ex_decl ''Node'' KInterface ''Types'')\<lparr>extends := Some [''Iterable<Node>'']\<rparr>,
      (ex_decl ''Tree'' KClass ''Types'')
         \<lparr>extends := Some [''Node''], implements := Some [''Comparable<Node>'']\<rparr>,
      ex_decl ''Leaf'' KType ''Types'']"

text \<open>An index of an undocumented declaration followed by a documented one.\<close>

definition ex_index_docs :: "ExtractedType list" where
  "ex_index_docs =
     [ex_decl ''Alpha'' KInterface ''Types'',
      (ex_decl ''Beta'' KInterface ''Types'')\<lparr>docs := Some ''A documented interface.''\<rparr>]"







section \<open>Theorems\<close>

text \<open>Facts on strings.\<close>

lemma str_includes_empty: "str_includes s []"
  by (cases s) simp_all

lemma last_dropWhile: "dropWhile P xs \<noteq> [] \<Longrightarrow> last (dropWhile P xs) = last xs"
proof -
  assume "dropWhile P xs \<noteq> []"
  then have "last (takeWhile P xs @ dropWhile P xs) = last (dropWhile P xs)"
    by (rule last_appendR)
  then show ?thesis by simp
qed

lemma spec_tokens_dropWhile: "spec_tokens (dropWhile isWhiteSpace s) = spec_tokens s"
  by (induction s) simp_all

lemma kind_string_in_all: "kind_string k \<in> set (map kind_string all_kinds)"
  by (cases k) (simp_all add: all_kinds_def)

text \<open>
  C3 (as amended). For a filter value that is none of the eight kind strings, the kind filter
  does not abort: it returns the empty list. The filter compares the kind of each
  declaration with the value and validates nothing.
\<close>

theorem getTypesByKind_unrecognized:
  "k \<notin> set (map kind_string all_kinds) \<Longrightarrow> getTypesByKind allTypes k = Inr []"
proof -
  assume k: "k \<notin> set (map kind_string all_kinds)"
  have "kind_string (kind t) \<noteq> k" for t :: ExtractedType
    using k kind_string_in_all [of "kind t"] by auto
  then show ?thesis
    by (simp add: getTypesByKind_def)
qed

theorem getTypesByKind_unrecognized_witness:
  "''widget'' \<notin> set (map kind_string all_kinds) \<and>
   getTypesByKind [ex_decl ''Foo'' KInterface ''Types'', ex_decl ''Bar'' KEnum ''Types''] ''widget'' = Inr []"
proof -
  have h: "''widget'' \<notin> set (map kind_string all_kinds)"
    by (simp add: all_kinds_def)
  show ?thesis
    using h getTypesByKind_unrecognized [OF h] by simp
qed

text \<open>
  C3 (as stated) fails: for the filter value \<open>widget\<close> the query returns the empty list and
  does not abort.
\<close>

theorem getTypesByKind_no_abort_counterexample:
  "''widget'' \<notin> set (map kind_string all_kinds) \<and>
   getTypesByKind [ex_decl ''Foo'' KInterface ''Types''] ''widget'' = Inr []"
  by (simp add: getTypesByKind_def all_kinds_def ex_decl_def)

subsection \<open>Fuzzy search\<close>

lemma foldl_token_bonus:
  "foldl (\<lambda>score word.
            (let score1 = (if P word then score + (10::int) else score)
             in if Q word then score1 + 5 else score1)) s ws
   = s + (\<Sum>w\<leftarrow>ws. (if P w then 10 else 0) + (if Q w then 5 else 0))"
  by (induction ws arbitrary: s) (simp_all add: Let_def)

lemma fuzzyScore_code_score:
  "fuzzyScore (toLowerCase q) (split_ws (toLowerCase q)) t = code_score q t"
  unfolding fuzzyScore_def code_score_def Let_def foldl_token_bonus [unfolded Let_def] by simp

lemma insort_key_map:
  "insort_key f (h x) (map h ys) = map h (insort_key (\<lambda>y. f (h y)) x ys)"
  by (induction ys) simp_all

lemma sort_key_map:
  "sort_key f (map h xs) = map h (sort_key (\<lambda>y. f (h y)) xs)"
  by (induction xs) (simp_all add: insort_key_map)

lemma slice0_nonneg: "0 \<le> e \<Longrightarrow> slice0 xs e = take (nat e) xs"
  by (simp add: slice0_def Let_def min_def)

lemma slice0_map: "slice0 (map f xs) e = map f (slice0 xs e)"
  by (simp add: slice0_def Let_def take_map)

text \<open>The search is a slice of the stable sort of the candidates of positive score.\<close>

lemma fuzzySearch_sort_key:
  "fuzzySearch idx q lim =
     slice0 (sort_key (\<lambda>t. - code_score q t) (filter (\<lambda>t. code_score q t > 0) idx))
            (case lim of None \<Rightarrow> 20 | Some n \<Rightarrow> n)"
  unfolding fuzzySearch_def Let_def fuzzyScore_code_score sort_desc_def
  by (simp add: filter_map o_def sort_key_map slice0_map [symmetric])

text \<open>The pieces of \<open>split\<close> are the tokens, with the empty pieces around them.\<close>

lemma split_ws_pieces:
  "split_ws s =
     (if s = [] \<or> isWhiteSpace (hd s) then [[]] else [])
     @ spec_tokens s
     @ (if s \<noteq> [] \<and> isWhiteSpace (last s) then [[]] else [])"
proof (induction s rule: split_ws.induct)
  case 1
  then show ?case by simp
next
  case (2 c cs)
  show ?case
  proof (cases "isWhiteSpace c")
    case True
    let ?d = "dropWhile isWhiteSpace cs"
    note IH = 2(1) [OF True]
    show ?thesis
    proof (cases "?d = []")
      case e: True
      have sd: "split_ws ?d = [[]]"
        unfolding e by simp
      have sw: "split_ws (c # cs) = [[], []]"
        using True sd by simp
      have "spec_tokens cs = spec_tokens ?d"
        by (rule spec_tokens_dropWhile [symmetric])
      then have "spec_tokens cs = []"
        unfolding e by simp
      with True have tk: "spec_tokens (c # cs) = []"
        by simp
      from e have "\<forall>x\<in>set cs. isWhiteSpace x"
        by (simp add: dropWhile_eq_Nil_conv)
      with True have "\<forall>x\<in>set (c # cs). isWhiteSpace x"
        by simp
      then have "isWhiteSpace (last (c # cs))"
        using last_in_set [of "c # cs"] by blast
      with True show ?thesis
        unfolding sw tk by simp
    next
      case ne: False
      then have h: "\<not> isWhiteSpace (hd ?d)" by (rule hd_dropWhile)
      from ne have l: "last ?d = last cs" by (rule last_dropWhile)
      from ne have "cs \<noteq> []" by auto
      with True ne h l IH show ?thesis
        by (simp add: spec_tokens_dropWhile)
    qed
  next
    case False
    note IH = 2(2) [OF False]
    show ?thesis
    proof (cases cs)
      case Nil
      with False show ?thesis by simp
    next
      case (Cons x xs)
      show ?thesis
      proof (cases "isWhiteSpace x")
        case True
        with False Cons IH show ?thesis by simp
      next
        case nx: False
        with False Cons IH show ?thesis by simp
      qed
    qed
  qed
qed

text \<open>Lower case leaves white space where it is.\<close>

lemma isWhiteSpace_lowerChar: "isWhiteSpace (lowerChar c) = isWhiteSpace c"
  by (simp add: lowerChar_def isWhiteSpace_def split: option.splits if_splits)

lemma spec_tokens_toLowerCase: "spec_tokens (toLowerCase q) = map toLowerCase (spec_tokens q)"
  unfolding toLowerCase_def
  by (induction q rule: spec_tokens.induct)
     (simp_all add: isWhiteSpace_lowerChar takeWhile_map dropWhile_map o_def)

lemma empty_pieces_toLowerCase: "empty_pieces (toLowerCase q) = empty_pieces q"
  by (cases "q = []")
     (simp_all add: empty_pieces_def toLowerCase_def hd_map last_map isWhiteSpace_lowerChar)

text \<open>
  The score of the source is the score of the specification and 15 for each empty piece:
  every name and every documentation text contains the empty piece.
\<close>

lemma sum_list_pieces:
  fixes f :: "string \<Rightarrow> int"
  assumes "f [] = 15"
  shows "(\<Sum>w\<leftarrow>split_ws s. f w) = (\<Sum>w\<leftarrow>spec_tokens s. f w) + 15 * int (empty_pieces s)"
  by (subst split_ws_pieces) (simp add: empty_pieces_def assms)

lemma code_score_spec_score: "code_score q t = spec_score q t + 15 * int (empty_pieces q)"
  unfolding code_score_def spec_score_def Let_def
  by (subst sum_list_pieces)
     (simp_all add: str_includes_empty spec_tokens_toLowerCase empty_pieces_toLowerCase o_def)

lemma spec_ranked_sort_key:
  "spec_ranked score idx (sort_key (\<lambda>t. - score t) (filter (\<lambda>t. score t > 0) idx))"
    (is "spec_ranked score idx ?r")
proof -
  have "sorted (map (\<lambda>t. - score t) ?r)"
    by simp
  then have "sorted_wrt (\<lambda>a b. score a \<ge> score b) ?r"
    by (simp add: sorted_map)
  moreover have "filter (\<lambda>t. score t = k) ?r
      = filter (\<lambda>t. score t = k \<and> k > 0) idx" for k
  proof -
    have "filter (\<lambda>t. - score t = - k) ?r
        = filter (\<lambda>t. - score t = - k) (filter (\<lambda>t. score t > 0) idx)"
      by (rule sort_key_stable)
    then show ?thesis
      by (simp add: conj_commute cong: conj_cong)
  qed
  ultimately show ?thesis
    by (simp add: spec_ranked_def)
qed

text \<open>
  C1 (as amended). For every index and every query of ASCII text, \<open>fuzzySearch\<close> returns the
  first \<open>limit\<close> entries (the first 20 when no limit is given) of a ranking of the index:
  candidates of score 0 left out, scores descending, ties in index order. The score is the
  score of the specification, over the tokens of the query, and 15 more for each empty piece
  that \<open>split\<close> yields: one when the query is empty or starts with white space, one when it
  ends with white space. For a query that is not empty and neither starts nor ends with
  white space, the score is the score of the specification. The limit is a count, so it is
  not negative; with a negative limit \<open>slice\<close> counts from the end.
\<close>

theorem fuzzySearch_scoring_and_ranking:
  "ascii q \<and> list_all ascii_decl idx \<longrightarrow>
     (\<exists>r. spec_ranked (\<lambda>t. spec_score q t + 15 * int (empty_pieces q)) idx r \<and>
          fuzzySearch idx q None = take 20 r \<and>
          (\<forall>limit\<ge>0. fuzzySearch idx q (Some limit) = take (nat limit) r)) \<and>
     (q \<noteq> [] \<and> \<not> isWhiteSpace (hd q) \<and> \<not> isWhiteSpace (last q) \<longrightarrow>
        (\<exists>r. spec_ranked (spec_score q) idx r \<and>
             fuzzySearch idx q None = take 20 r \<and>
             (\<forall>limit\<ge>0. fuzzySearch idx q (Some limit) = take (nat limit) r)))"
proof (intro impI conjI)
  let ?score = "\<lambda>t. spec_score q t + 15 * int (empty_pieces q)"
  let ?r = "sort_key (\<lambda>t. - ?score t) (filter (\<lambda>t. ?score t > 0) idx)"
  have r: "spec_ranked ?score idx ?r"
    by (rule spec_ranked_sort_key)
  have s: "fuzzySearch idx q None = take 20 ?r"
    "\<forall>limit\<ge>0. fuzzySearch idx q (Some limit) = take (nat limit) ?r"
    by (simp_all add: fuzzySearch_sort_key code_score_spec_score slice0_nonneg)
  from r s show "\<exists>r. spec_ranked ?score idx r \<and>
          fuzzySearch idx q None = take 20 r \<and>
          (\<forall>limit\<ge>0. fuzzySearch idx q (Some limit) = take (nat limit) r)"
    by blast
  assume "q \<noteq> [] \<and> \<not> isWhiteSpace (hd q) \<and> \<not> isWhiteSpace (last q)"
  then have "empty_pieces q = 0"
    by (simp add: empty_pieces_def)
  with r s show "\<exists>r. spec_ranked (spec_score q) idx r \<and>
             fuzzySearch idx q None = take 20 r \<and>
             (\<forall>limit\<ge>0. fuzzySearch idx q (Some limit) = take (nat limit) r)"
    by auto
qed

text \<open>
  A query of two tokens: \<open>MyFoo\<close> scores 20 (its name contains \<open>foo\<close>, its documentation
  \<open>foo\<close> and \<open>wraps\<close>), \<open>FooBar\<close> and \<open>Foo\<close> score 10 and \<open>Baz\<close> scores 0. And a query that
  ends with a blank, which has one empty piece.
\<close>

lemma fuzzySearch_ex_index:
  "ascii ''foo wraps'' \<and> ascii ''foo '' \<and> list_all ascii_decl ex_index"
  "''foo wraps'' \<noteq> [] \<and> \<not> isWhiteSpace (hd ''foo wraps'') \<and> \<not> isWhiteSpace (last ''foo wraps'')"
  "spec_tokens ''foo wraps'' = [''foo'', ''wraps'']"
  "map (spec_score ''foo wraps'') ex_index = [0, 10, 20, 10]"
  "fuzzySearch ex_index ''foo wraps'' (Some 2)
     = [(ex_decl ''MyFoo'' KClass ''Utils'')\<lparr>docs := Some ''wraps a foo''\<rparr>,
        ex_decl ''FooBar'' KInterface ''Types'']"
  "empty_pieces ''foo '' = 1"
  by code_simp+

theorem fuzzySearch_scoring_and_ranking_witness:
  "ascii ''foo wraps'' \<and> ascii ''foo '' \<and> list_all ascii_decl ex_index \<and>
   spec_tokens ''foo wraps'' = [''foo'', ''wraps''] \<and>
   map (spec_score ''foo wraps'') ex_index = [0, 10, 20, 10] \<and>
   fuzzySearch ex_index ''foo wraps'' (Some 2)
     = [(ex_decl ''MyFoo'' KClass ''Utils'')\<lparr>docs := Some ''wraps a foo''\<rparr>,
        ex_decl ''FooBar'' KInterface ''Types''] \<and>
   (\<exists>r. spec_ranked (spec_score ''foo wraps'') ex_index r \<and> (0::int) \<le> 2 \<and>
        fuzzySearch ex_index ''foo wraps'' (Some 2) = take (nat 2) r) \<and>
   empty_pieces ''foo '' = 1 \<and>
   (\<exists>r. spec_ranked (\<lambda>t. spec_score ''foo '' t + 15 * int (empty_pieces ''foo '')) ex_index r \<and>
        fuzzySearch ex_index ''foo '' None = take 20 r)"
proof -
  note ex = fuzzySearch_ex_index
  from ex(1) have a: "ascii ''foo wraps'' \<and> list_all ascii_decl ex_index"
    and b: "ascii ''foo '' \<and> list_all ascii_decl ex_index"
    by blast+
  obtain r where r: "spec_ranked (spec_score ''foo wraps'') ex_index r"
    and lim: "\<forall>limit\<ge>0. fuzzySearch ex_index ''foo wraps'' (Some limit) = take (nat limit) r"
    using fuzzySearch_scoring_and_ranking [of "''foo wraps''" ex_index] a ex(2) by blast
  have "(0::int) \<le> 2" by simp
  with lim have "fuzzySearch ex_index ''foo wraps'' (Some 2) = take (nat 2) r" by blast
  with r have 1: "\<exists>r. spec_ranked (spec_score ''foo wraps'') ex_index r \<and> (0::int) \<le> 2 \<and>
        fuzzySearch ex_index ''foo wraps'' (Some 2) = take (nat 2) r"
    by auto
  have 2: "\<exists>r. spec_ranked (\<lambda>t. spec_score ''foo '' t + 15 * int (empty_pieces ''foo '')) ex_index r \<and>
        fuzzySearch ex_index ''foo '' None = take 20 r"
    using fuzzySearch_scoring_and_ranking [of "''foo ''" ex_index] b by blast
  from ex 1 2 show ?thesis by blast
qed

text \<open>
  C1 (as stated) fails. The query \<open>foo\<close> followed by a blank has the one token \<open>foo\<close>, so
  the first entry of the index, \<open>Baz\<close>, has score 0 and is to be left out. In the source
  the query has a second, empty piece: \<open>Baz\<close> scores 15 and is returned.
\<close>

theorem fuzzySearch_trailing_space_counterexample:
  "spec_tokens ''foo '' = [''foo''] \<and>
   map (spec_score ''foo '') ex_index = [0, 10, 15, 10] \<and>
   split_ws (toLowerCase ''foo '') = [''foo'', []] \<and>
   fuzzyScore (toLowerCase ''foo '') (split_ws (toLowerCase ''foo ''))
     (ex_decl ''Baz'' KType ''Types'') = 15 \<and>
   fuzzySearch ex_index ''foo '' None
     = [(ex_decl ''MyFoo'' KClass ''Utils'')\<lparr>docs := Some ''wraps a foo''\<rparr>,
        ex_decl ''FooBar'' KInterface ''Types'',
        ex_decl ''Foo'' KInterface ''Types'',
        ex_decl ''Baz'' KType ''Types'']"
  by code_simp

text \<open>The same with a blank in front of the query.\<close>

lemma fuzzySearch_leading_space:
  "split_ws (toLowerCase '' foo'') = [[], ''foo'']"
  "fuzzyScore (toLowerCase '' foo'') (split_ws (toLowerCase '' foo''))
     (ex_decl ''Baz'' KType ''Types'') = 15"
  "fuzzySearch [ex_decl ''Baz'' KType ''Types''] '' foo'' None
     = [ex_decl ''Baz'' KType ''Types'']"
  by code_simp+

subsection \<open>Statistics\<close>

lemma set_all_kinds: "set all_kinds = UNIV"
proof -
  have "k \<in> set all_kinds" for k
    by (cases k) (simp_all add: all_kinds_def)
  then show ?thesis by auto
qed

lemma distinct_all_kinds: "distinct all_kinds"
  by (simp add: all_kinds_def)

text \<open>The counts by kind.\<close>

lemma fst_stats_step: "fst (stats_step acc t) = bump (fst acc) (kind t)"
  by (simp add: stats_step_def Let_def split: option.splits)

lemma fst_foldl_stats_step:
  "fst (foldl stats_step acc ts) = foldl bump (fst acc) (map kind ts)"
  by (induction ts arbitrary: acc) (simp_all add: fst_stats_step)

lemma foldl_bump:
  "m k = Some n \<Longrightarrow> foldl bump m ks k = Some (n + length (filter (\<lambda>x. x = k) ks))"
proof (induction ks arbitrary: m n)
  case Nil
  then show ?case by simp
next
  case (Cons x ks)
  show ?case
  proof (cases "x = k")
    case True
    with Cons.prems have "bump m x k = Some (n + 1)"
      by (simp add: bump_def)
    from Cons.IH [where m = "bump m x" and n = "n + 1", OF this] True show ?thesis by simp
  next
    case False
    with Cons.prems have "bump m x k = Some n"
      by (simp add: bump_def split: option.splits)
    from Cons.IH [where m = "bump m x" and n = n, OF this] False show ?thesis by simp
  qed
qed

lemma byKind_init_Some: "byKind_init k = Some 0"
  by (cases k) (simp_all add: byKind_init_def)

lemma byKind_stats_loop:
  "fst (stats_loop ts) k = Some (length (filter (\<lambda>t. kind t = k) ts))"
  unfolding stats_loop_def fst_foldl_stats_step
  using foldl_bump [where m = byKind_init and k = k and n = 0 and ks = "map kind ts", OF byKind_init_Some]
  by (simp add: filter_map o_def)

lemma sum_kind_counts:
  "(\<Sum>k\<leftarrow>all_kinds. length (filter (\<lambda>t. kind t = k) ts)) = length ts"
proof (induction ts)
  case Nil
  then show ?case by (simp add: all_kinds_def)
next
  case (Cons t ts)
  have "(\<Sum>k\<leftarrow>all_kinds. length (filter (\<lambda>t. kind t = k) (t # ts)))
      = (\<Sum>k\<leftarrow>all_kinds. (if kind t = k then 1 else 0) + length (filter (\<lambda>t. kind t = k) ts))"
    by (rule arg_cong [where f = sum_list]) simp
  also have "\<dots> = (\<Sum>k\<leftarrow>all_kinds. if kind t = k then 1 else 0)
      + (\<Sum>k\<leftarrow>all_kinds. length (filter (\<lambda>t. kind t = k) ts))"
    by (simp add: sum_list_addf)
  also have "(\<Sum>k\<leftarrow>all_kinds. if kind t = k then 1 else 0) = (1::nat)"
    by (cases "kind t") (simp_all add: all_kinds_def)
  finally show ?case using Cons.IH by simp
qed

text \<open>The map of the modules.\<close>

lemma ms_module_count_kind: "ms_module (count_kind k st) = ms_module st"
  by (cases k) simp_all

lemma total_count_kind: "total (count_kind k st) = total st"
  by (cases k) simp_all

lemma sum_update_new:
  "map_of al k = None \<Longrightarrow>
   sum_list (map (\<lambda>p. f (snd p)) (AList.update k v al)) = sum_list (map (\<lambda>p. f (snd p)) al) + (f v :: nat)"
  by (induction al) (auto split: if_splits)

lemma sum_update_old:
  "map_of al k = Some w \<Longrightarrow>
   sum_list (map (\<lambda>p. f (snd p)) (AList.update k v al)) + f w = sum_list (map (\<lambda>p. f (snd p)) al) + (f v :: nat)"
  by (induction al) (auto split: if_splits)

lemma set_update_subset:
  "set (AList.update k v al) \<subseteq> insert (k, v) (set al)"
  by (induction al) auto

lemma mm_ok_update: "mm_ok mm \<Longrightarrow> ms_module v = k \<Longrightarrow> mm_ok (AList.update k v mm)"
  unfolding mm_ok_def using set_update_subset [of k v mm]
  by (auto simp: distinct_update)

lemma keys_update: "set (map fst (AList.update k v al)) = insert k (set (map fst al))"
  by (auto simp: update_keys)

text \<open>One round of the loop.\<close>

lemma snd_stats_step_eq:
  "snd (stats_step acc t) =
     AList.update (moduleName t)
       (count_kind (kind t)
          ((entry_of (snd acc) (moduleName t))
             \<lparr>total := total (entry_of (snd acc) (moduleName t)) + 1\<rparr>))
       (snd acc)"
proof (cases "map_of (snd acc) (moduleName t)")
  case None
  then show ?thesis
    by (simp add: stats_step_def Let_def update_conv' entry_of_def)
next
  case (Some w)
  then show ?thesis
    by (simp add: stats_step_def Let_def entry_of_def)
qed

lemma sum_update_total:
  "sum_list (map (\<lambda>p. total (snd p)) (AList.update k v al)) + total (entry_of al k)
     = sum_list (map (\<lambda>p. total (snd p)) al) + total v"
proof (cases "map_of al k")
  case None
  from sum_update_new [OF None, of total v] None show ?thesis
    by (simp add: entry_of_def empty_stats_def)
next
  case (Some w)
  from sum_update_old [OF Some, of total v] Some show ?thesis
    by (simp add: entry_of_def)
qed

lemma ms_module_entry_of: "mm_ok mm \<Longrightarrow> ms_module (entry_of mm k) = k"
proof (cases "map_of mm k")
  case None
  then show ?thesis by (simp add: entry_of_def empty_stats_def)
next
  case (Some w)
  assume "mm_ok mm"
  moreover from Some have "(k, w) \<in> set mm" by (rule map_of_SomeD)
  ultimately have "ms_module w = k" by (auto simp: mm_ok_def)
  with Some show ?thesis by (simp add: entry_of_def)
qed

lemma snd_stats_step:
  assumes "mm_ok (snd acc)"
  shows "mm_ok (snd (stats_step acc t))"
    and "set (map fst (snd (stats_step acc t))) = insert (moduleName t) (set (map fst (snd acc)))"
    and "sum_list (map (\<lambda>p. total (snd p)) (snd (stats_step acc t)))
           = sum_list (map (\<lambda>p. total (snd p)) (snd acc)) + 1"
proof -
  let ?k = "moduleName t"
  let ?e = "entry_of (snd acc) ?k"
  let ?v = "count_kind (kind t) (?e\<lparr>total := total ?e + 1\<rparr>)"
  have v: "ms_module ?v = ?k" "total ?v = total ?e + 1"
    using ms_module_entry_of [OF assms, of ?k]
    by (simp_all add: ms_module_count_kind total_count_kind)
  show "mm_ok (snd (stats_step acc t))"
    unfolding snd_stats_step_eq using assms v(1) by (rule mm_ok_update)
  show "set (map fst (snd (stats_step acc t))) = insert ?k (set (map fst (snd acc)))"
    unfolding snd_stats_step_eq by (rule keys_update)
  from sum_update_total [of ?k ?v "snd acc"] v(2)
  show "sum_list (map (\<lambda>p. total (snd p)) (snd (stats_step acc t)))
           = sum_list (map (\<lambda>p. total (snd p)) (snd acc)) + 1"
    unfolding snd_stats_step_eq by linarith
qed

lemma snd_foldl_stats_step:
  "mm_ok (snd acc) \<Longrightarrow>
   mm_ok (snd (foldl stats_step acc ts)) \<and>
   set (map fst (snd (foldl stats_step acc ts))) = set (map moduleName ts) \<union> set (map fst (snd acc)) \<and>
   sum_list (map (\<lambda>p. total (snd p)) (snd (foldl stats_step acc ts)))
     = sum_list (map (\<lambda>p. total (snd p)) (snd acc)) + length ts"
proof (induction ts arbitrary: acc)
  case Nil
  then show ?case by simp
next
  case (Cons t ts)
  note step = snd_stats_step [OF Cons.prems, of t]
  from Cons.IH [OF step(1)] step(2,3) show ?case
    by (simp del: set_map)
qed

lemma moduleMap_stats_loop:
  "mm_ok (snd (stats_loop ts))"
  "set (map fst (snd (stats_loop ts))) = set (map moduleName ts)"
  "sum_list (map (\<lambda>p. total (snd p)) (snd (stats_loop ts))) = length ts"
  using snd_foldl_stats_step [of "(byKind_init, [])" ts]
  by (simp_all add: stats_loop_def mm_ok_def)

lemma mm_ok_modules: "mm_ok mm \<Longrightarrow> map ms_module (map snd mm) = map fst mm"
  by (auto simp: mm_ok_def)

text \<open>
  C2. For every index the statistics are consistent: the eight counts of \<open>byKind\<close> sum to
  \<open>totalDeclarations\<close>, which is also the sum of \<open>total\<close> over \<open>byModule\<close>; \<open>byKind\<close> has an
  entry for each of the eight kinds, the number of declarations of that kind (zero when there
  is none); \<open>byModule\<close> has one record for each module of the index and no module twice; and
  it is sorted by descending \<open>total\<close>.
\<close>

theorem getStatistics_consistent:
  "byKind_sum (getStatistics idx) = totalDeclarations (getStatistics idx) \<and>
   totalDeclarations (getStatistics idx) = sum_list (map total (byModule (getStatistics idx))) \<and>
   dom (byKind (getStatistics idx)) = set all_kinds \<and>
   (\<forall>k. byKind (getStatistics idx) k = Some (length (filter (\<lambda>t. kind t = k) idx))) \<and>
   distinct (map ms_module (byModule (getStatistics idx))) \<and>
   set (map ms_module (byModule (getStatistics idx))) = set (map moduleName idx) \<and>
   sorted_wrt (\<lambda>a b. total a \<ge> total b) (byModule (getStatistics idx))"
proof -
  let ?mm = "snd (stats_loop idx)"
  have bk: "byKind (getStatistics idx) k = Some (length (filter (\<lambda>t. kind t = k) idx))" for k
    by (simp add: getStatistics_def Let_def byKind_stats_loop)
  have bm: "byModule (getStatistics idx) = sort_key (\<lambda>a. - int (total a)) (map snd ?mm)"
    by (simp add: getStatistics_def Let_def sort_desc_def)
  have c1: "byKind_sum (getStatistics idx) = totalDeclarations (getStatistics idx)"
    using sum_kind_counts [of idx] by (simp add: byKind_sum_def bk) (simp add: getStatistics_def Let_def)
  have "sum_list (map total (byModule (getStatistics idx)))
      = sum_mset (image_mset total (mset (sort_key (\<lambda>a. - int (total a)) (map snd ?mm))))"
    unfolding bm by (simp only: sum_mset_sum_list [symmetric] mset_map)
  also have "\<dots> = sum_list (map total (map snd ?mm))"
    by (simp only: mset_sort sum_mset_sum_list [symmetric] mset_map)
  also have "\<dots> = length idx"
    using moduleMap_stats_loop(3) [of idx] by (simp add: o_def)
  finally have c2: "totalDeclarations (getStatistics idx)
      = sum_list (map total (byModule (getStatistics idx)))"
    by (simp add: getStatistics_def Let_def)
  have c3: "dom (byKind (getStatistics idx)) = set all_kinds"
    using bk by (auto simp: set_all_kinds)
  have mods: "map ms_module (map snd ?mm) = map fst ?mm"
    by (rule mm_ok_modules) (rule moduleMap_stats_loop)
  have d0: "distinct (map ms_module (map snd ?mm))"
    unfolding mods using moduleMap_stats_loop(1) [of idx] by (simp add: mm_ok_def)
  then have inj: "distinct (map snd ?mm)" "inj_on ms_module (set (map snd ?mm))"
    by (simp_all only: distinct_map)
  have c5: "distinct (map ms_module (byModule (getStatistics idx)))"
    unfolding bm using inj by (simp only: distinct_map distinct_sort set_sort)
  have "set (map ms_module (byModule (getStatistics idx))) = set (map ms_module (map snd ?mm))"
    unfolding bm by (simp only: set_map set_sort)
  then have c6: "set (map ms_module (byModule (getStatistics idx))) = set (map moduleName idx)"
    unfolding mods using moduleMap_stats_loop(2) [of idx] by simp
  have "sorted (map (\<lambda>a. - int (total a)) (byModule (getStatistics idx)))"
    unfolding bm by (rule sorted_sort_key)
  then have c7: "sorted_wrt (\<lambda>a b. total a \<ge> total b) (byModule (getStatistics idx))"
    by (simp add: sorted_map)
  from c1 c2 c3 bk c5 c6 c7 show ?thesis by blast
qed

lemma getStatistics_ex_index:
  "totalDeclarations (getStatistics ex_index) = 4"
  "map (\<lambda>m. (ms_module m, total m)) (byModule (getStatistics ex_index))
     = [(''Types'', 3), (''Utils'', 1)]"
  "map (byKind (getStatistics ex_index)) all_kinds
     = [Some 2, Some 1, Some 0, Some 0, Some 1, Some 0, Some 0, Some 0]"
  by code_simp+

theorem getStatistics_consistent_witness:
  "byKind_sum (getStatistics ex_index) = 4 \<and>
   sum_list (map total (byModule (getStatistics ex_index))) = 4 \<and>
   map (\<lambda>m. (ms_module m, total m)) (byModule (getStatistics ex_index))
     = [(''Types'', 3), (''Utils'', 1)] \<and>
   map (byKind (getStatistics ex_index)) all_kinds
     = [Some 2, Some 1, Some 0, Some 0, Some 1, Some 0, Some 0, Some 0]"
  using getStatistics_consistent [of ex_index] getStatistics_ex_index by simp

subsection \<open>The cache\<close>

lemma extractAllTypes_cache_set:
  "cachedTypes (snd (extractAllTypes h p)) = Some (fst (extractAllTypes h p))"
  by (cases "cachedTypes p") (simp_all add: extractAllTypes_def Let_def)

lemma extractAllTypes_hit:
  "cachedTypes q = Some ts \<Longrightarrow> extractAllTypes h q = (ts, q)"
  by (simp add: extractAllTypes_def)

text \<open>
  C6. A second call of \<open>extractAllTypes\<close> returns what the first call returned and leaves the
  parser as it is, whatever the host has become in between: nothing is scanned again. The
  same holds from any state of the parser that has the cache of the first call, so for
  whatever was done in between that does not write the cache. The first result may be the
  empty list.
\<close>

theorem extractAllTypes_idempotent:
  "extractAllTypes h' (snd (extractAllTypes h p))
     = (fst (extractAllTypes h p), snd (extractAllTypes h p)) \<and>
   (cachedTypes q = cachedTypes (snd (extractAllTypes h p)) \<longrightarrow>
      extractAllTypes h' q = (fst (extractAllTypes h p), q))"
  using extractAllTypes_cache_set [of h p]
  by (simp add: extractAllTypes_hit)

lemma extractAllTypes_ex:
  "extractAllTypes ex_host_empty ex_parser
     = ([], \<lparr> project = [''/src/Tests/a.ts'', ''/src/b.d.ts''], whaileysSrcPath = ''/src'',
              cachedTypes = Some [] \<rparr>)"
  by (simp add: extractAllTypes_def ex_host_empty_def ex_parser_def addSourceFiles_def Let_def)

theorem extractAllTypes_idempotent_witness:
  "fst (extractAllTypes ex_host_empty ex_parser) = [] \<and>
   extractAllTypes ex_host_later (snd (extractAllTypes ex_host_empty ex_parser))
     = ([], snd (extractAllTypes ex_host_empty ex_parser)) \<and>
   cachedTypes (ex_parser\<lparr>cachedTypes := Some []\<rparr>)
     = cachedTypes (snd (extractAllTypes ex_host_empty ex_parser)) \<and>
   extractAllTypes ex_host_later (ex_parser\<lparr>cachedTypes := Some []\<rparr>)
     = ([], ex_parser\<lparr>cachedTypes := Some []\<rparr>)"
proof -
  have c: "cachedTypes (ex_parser\<lparr>cachedTypes := Some []\<rparr>)
     = cachedTypes (snd (extractAllTypes ex_host_empty ex_parser))"
    by (simp add: extractAllTypes_ex)
  from extractAllTypes_idempotent
    [of ex_host_later ex_host_empty ex_parser "ex_parser\<lparr>cachedTypes := Some []\<rparr>"] c
  show ?thesis
    by (simp add: extractAllTypes_ex)
qed

subsection \<open>Re-exports\<close>

text \<open>
  C5 (as amended). An export declaration with a module specifier that is not empty yields
  exactly one record of kind re-export whose \<open>reExportSource\<close> is the specifier and which has
  neither properties nor methods. For a namespace re-export the record has no \<open>members\<close>
  field; for a named re-export of at least one name its \<open>members\<close> are the rendered names in
  order.
\<close>

theorem extractReExport_shape:
  "getModuleSpecifierValue d = Some src \<and> src \<noteq> [] \<longrightarrow>
     (isNamespaceExport d \<longrightarrow>
        (\<exists>r. extractReExports [d] file m = [r] \<and> kind r = KReExport \<and>
             reExportSource r = Some src \<and> members r = None \<and>
             properties r = None \<and> methods r = None)) \<and>
     (\<not> isNamespaceExport d \<and> getNamedExports d \<noteq> [] \<longrightarrow>
        (\<exists>r. extractReExports [d] file m = [r] \<and> kind r = KReExport \<and>
             reExportSource r = Some src \<and>
             members r = Some (map spec_rendered (getNamedExports d)) \<and>
             properties r = None \<and> methods r = None))"
  by (auto simp: extractReExports_def extractReExport_def Let_def spec_rendered_def
           split: option.splits cong: map_cong)

theorem extractReExport_shape_witness:
  "map (\<lambda>r. (kind r, reExportSource r, members r))
       (extractReExports [ex_export_star] ''index.ts'' ''root'')
     = [(KReExport, Some ''./a'', None)] \<and>
   map (\<lambda>r. (kind r, reExportSource r, members r))
       (extractReExports [ex_export_named] ''index.ts'' ''root'')
     = [(KReExport, Some ''./b'', Some [''x'', ''y as z''])]"
proof -
  have s: "getModuleSpecifierValue ex_export_star = Some ''./a'' \<and> ''./a'' \<noteq> []"
    "isNamespaceExport ex_export_star"
    by (simp_all add: ex_export_star_def)
  have n: "getModuleSpecifierValue ex_export_named = Some ''./b'' \<and> ''./b'' \<noteq> []"
    "\<not> isNamespaceExport ex_export_named \<and> getNamedExports ex_export_named \<noteq> []"
    "map spec_rendered (getNamedExports ex_export_named) = [''x'', ''y as z'']"
    by (simp_all add: ex_export_named_def spec_rendered_def)
  from extractReExport_shape [of ex_export_star "''./a''" "''index.ts''" "''root''"] s
  have "\<exists>r. extractReExports [ex_export_star] ''index.ts'' ''root'' = [r] \<and> kind r = KReExport \<and>
             reExportSource r = Some ''./a'' \<and> members r = None"
    by blast
  moreover
  from extractReExport_shape [of ex_export_named "''./b''" "''index.ts''" "''root''"] n
  have "\<exists>r. extractReExports [ex_export_named] ''index.ts'' ''root'' = [r] \<and> kind r = KReExport \<and>
             reExportSource r = Some ''./b'' \<and> members r = Some [''x'', ''y as z'']"
    by auto
  ultimately show ?thesis by auto
qed

text \<open>
  C5 (as stated) fails: the record of \<open>export * from "./a"\<close> has no \<open>members\<close> field, which is
  not the empty list.
\<close>

theorem extractReExport_members_counterexample:
  "map members (extractReExports [ex_export_star] ''index.ts'' ''root'') = [None] \<and>
   map members (extractReExports [ex_export_star] ''index.ts'' ''root'') \<noteq> [Some []]"
  by (simp add: extractReExports_def extractReExport_def ex_export_star_def)

subsection \<open>Documentation\<close>

lemma filterBoolean_doc_text:
  "filterBoolean (map (\<lambda>d. js_or (getDescription d) (getText d)) ds)
     = filter (\<lambda>s. s \<noteq> []) (map doc_text ds)"
  by (induction ds) (auto simp: js_or_def doc_text_def split: option.splits)

lemma filterBoolean_descriptions:
  "\<forall>d\<in>set ds. \<exists>s. getDescription d = Some s \<and> s \<noteq> [] \<Longrightarrow>
   filterBoolean (map (\<lambda>d. js_or (getDescription d) (getText d)) ds)
     = map (\<lambda>d. case getDescription d of Some s \<Rightarrow> s | None \<Rightarrow> []) ds"
  by (induction ds) (auto simp: js_or_def)

lemma trim_Nil_iff: "trim s = [] \<longleftrightarrow> (\<forall>c\<in>set s. isWhiteSpace c)"
proof -
  let ?u = "dropWhile isWhiteSpace s"
  have "trim s = [] \<longleftrightarrow> (\<forall>c\<in>set ?u. isWhiteSpace c)"
    by (simp add: trim_def)
  also have "\<dots> \<longleftrightarrow> ?u = []"
  proof
    assume a: "\<forall>c\<in>set ?u. isWhiteSpace c"
    show "?u = []"
    proof (rule ccontr)
      assume n: "?u \<noteq> []"
      then have "\<not> isWhiteSpace (hd ?u)" by (rule hd_dropWhile)
      moreover from n have "hd ?u \<in> set ?u" by (rule hd_in_set)
      ultimately show False using a by blast
    qed
  next
    assume "?u = []"
    then show "\<forall>c\<in>set ?u. isWhiteSpace c" by (simp only: list.set ball_empty)
  qed
  also have "\<dots> \<longleftrightarrow> (\<forall>c\<in>set s. isWhiteSpace c)"
    by simp
  finally show ?thesis .
qed

lemma set_join: "x \<in> set xs \<Longrightarrow> set x \<subseteq> set (join sep xs)"
  by (induction sep xs rule: join.induct) auto

lemma getJsDocs_visible:
  assumes "list_ex (\<lambda>d. \<not> blank (doc_text d)) ds"
  shows "trim (join [CHR 0x0A] (filter (\<lambda>s. s \<noteq> []) (map doc_text ds))) \<noteq> []"
proof -
  let ?texts = "filter (\<lambda>s. s \<noteq> []) (map doc_text ds)"
  from assms obtain d c where d: "d \<in> set ds" and c: "c \<in> set (doc_text d)" "\<not> isWhiteSpace c"
    by (auto simp: list_ex_iff blank_def list_all_iff)
  from d c(1) have "doc_text d \<in> set ?texts" by auto
  then have "set (doc_text d) \<subseteq> set (join [CHR 0x0A] ?texts)" by (rule set_join)
  with c show ?thesis
    unfolding trim_Nil_iff by blast
qed

text \<open>
  C4 (as amended). \<open>docs\<close> is absent when the node has no documentation comments. Each
  comment contributes a text: its description, or its whole text, tags and delimiters
  included, when its description is empty or missing. When the comments are ASCII text and
  one of them contributes a text that is not blank, \<open>docs\<close> is present and not empty: it is
  the trimmed newline-joined concatenation of the texts contributed, empty ones left out;
  and if moreover every comment has a description that is not empty, \<open>docs\<close> is the trimmed
  newline-joined concatenation of the descriptions. Nothing is stated for comments that
  contribute blank texts only.
\<close>

theorem getJsDocs_amended:
  "getJsDocs None = None \<and> getJsDocs (Some []) = None \<and>
   (list_all ascii_doc ds \<and> list_ex (\<lambda>d. \<not> blank (doc_text d)) ds \<longrightarrow>
      getJsDocs (Some ds)
        = Some (trim (join [CHR 0x0A] (filter (\<lambda>s. s \<noteq> []) (map doc_text ds)))) \<and>
      getJsDocs (Some ds) \<noteq> Some []) \<and>
   (list_all ascii_doc ds \<and> list_ex (\<lambda>d. \<not> blank (doc_text d)) ds \<and>
    (\<forall>d\<in>set ds. \<exists>s. getDescription d = Some s \<and> s \<noteq> []) \<longrightarrow>
      getJsDocs (Some ds) = map_option trim (spec_docs (Some ds)))"
proof (intro conjI impI)
  show "getJsDocs None = None" "getJsDocs (Some []) = None"
    by (simp_all add: getJsDocs_def)
next
  assume a: "list_all ascii_doc ds \<and> list_ex (\<lambda>d. \<not> blank (doc_text d)) ds"
  then have "ds \<noteq> []" by auto
  then show e: "getJsDocs (Some ds)
        = Some (trim (join [CHR 0x0A] (filter (\<lambda>s. s \<noteq> []) (map doc_text ds))))"
    by (simp add: getJsDocs_def filterBoolean_doc_text)
  from a show "getJsDocs (Some ds) \<noteq> Some []"
    unfolding e using getJsDocs_visible [of ds] by simp
next
  assume a: "list_all ascii_doc ds \<and> list_ex (\<lambda>d. \<not> blank (doc_text d)) ds \<and>
    (\<forall>d\<in>set ds. \<exists>s. getDescription d = Some s \<and> s \<noteq> [])"
  then show "getJsDocs (Some ds) = map_option trim (spec_docs (Some ds))"
    using filterBoolean_descriptions [of ds]
    by (cases ds) (simp_all add: getJsDocs_def spec_docs_def)
qed

lemma getJsDocs_ex_two:
  "getJsDocs ex_doc_two = Some (''Sends a message.'' @ [CHR 0x0A] @ ''Returns the id.'')"
  "spec_docs ex_doc_two
     = Some (CHR 0x0A # ''Sends a message.'' @ [CHR 0x0A] @ ''Returns the id.'')"
  "trim (join [CHR 0x0A] (filter (\<lambda>s. s \<noteq> [])
      (map doc_text [\<lparr> getDescription = Some ''Sends a message.'',
                        getText = Some ''/** Sends a message. */'' \<rparr>,
                     \<lparr> getDescription = Some [], getText = Some ''/** @internal */'' \<rparr>])))
     = ''Sends a message.'' @ [CHR 0x0A] @ ''/** @internal */''"
  by code_simp+

theorem getJsDocs_amended_witness:
  "getJsDocs ex_doc_two = Some (''Sends a message.'' @ [CHR 0x0A] @ ''Returns the id.'') \<and>
   getJsDocs ex_doc_two = map_option trim (spec_docs ex_doc_two) \<and>
   getJsDocs ex_doc_two \<noteq> spec_docs ex_doc_two \<and>
   getJsDocs ex_doc_two \<noteq> Some [] \<and>
   getJsDocs ex_doc_mixed = Some (''Sends a message.'' @ [CHR 0x0A] @ ''/** @internal */'')"
proof -
  let ?two = "[\<lparr> getDescription = Some (CHR 0x0A # ''Sends a message.''),
                  getText = Some ''/** Sends a message. */'' \<rparr>,
               \<lparr> getDescription = Some ''Returns the id.'',
                  getText = Some ''/** Returns the id. @public */'' \<rparr>]"
  let ?mixed = "[\<lparr> getDescription = Some ''Sends a message.'',
                    getText = Some ''/** Sends a message. */'' \<rparr>,
                 \<lparr> getDescription = Some [], getText = Some ''/** @internal */'' \<rparr>]"
  have two: "ex_doc_two = Some ?two" and mixed: "ex_doc_mixed = Some ?mixed"
    by (simp_all add: ex_doc_two_def ex_doc_mixed_def)
  have h: "list_all ascii_doc ?two \<and> list_ex (\<lambda>d. \<not> blank (doc_text d)) ?two"
    "list_all ascii_doc ?mixed \<and> list_ex (\<lambda>d. \<not> blank (doc_text d)) ?mixed"
    by code_simp+
  have d: "\<forall>d\<in>set ?two. \<exists>s. getDescription d = Some s \<and> s \<noteq> []"
    by simp
  from getJsDocs_amended [of ?two] h(1) d
  have "getJsDocs (Some ?two) = map_option trim (spec_docs (Some ?two))"
    "getJsDocs (Some ?two) \<noteq> Some []"
    by blast+
  moreover from getJsDocs_amended [of ?mixed] h(2)
  have "getJsDocs (Some ?mixed)
      = Some (trim (join [CHR 0x0A] (filter (\<lambda>s. s \<noteq> []) (map doc_text ?mixed))))"
    by blast
  ultimately show ?thesis
    unfolding two [symmetric] mixed [symmetric] getJsDocs_ex_two(3)
    using getJsDocs_ex_two(1,2) by simp
qed

text \<open>
  C4 (as stated) fails. For a comment that holds a tag only, \<open>docs\<close> is the whole text of the
  comment, tag included, where the descriptions join to the empty string. For a comment with
  a description followed by a comment that holds a tag only, \<open>docs\<close> ends with the text of
  the second comment, tag included. And for a comment that holds a tag only behind a blank
  first line, the description is a line feed: it is taken, trimmed away, and \<open>docs\<close> is
  present as the empty string.
\<close>

theorem getJsDocs_counterexample:
  "getJsDocs ex_doc_tag_only = Some ''/** @deprecated */'' \<and>
   spec_docs ex_doc_tag_only = Some [] \<and>
   getJsDocs ex_doc_mixed = Some (''Sends a message.'' @ [CHR 0x0A] @ ''/** @internal */'') \<and>
   spec_docs ex_doc_mixed = Some (''Sends a message.'' @ [CHR 0x0A]) \<and>
   getJsDocs ex_doc_blank = Some []"
  by code_simp

subsection \<open>The hierarchy\<close>

lemma children_foldl:
  "foldl (\<lambda>children t.
            (let c1 = (if some_includes (extends t) n then children @ [name t] else children)
             in if some_includes (implements t) n then c1 @ [name t] else c1))
         acc idx
   = acc @ children_of idx n"
  by (induction idx arbitrary: acc) (simp_all add: children_of_def Let_def)

lemma getTypeHierarchy_Some:
  "find (\<lambda>t. toLowerCase (name t) = toLowerCase q) idx = Some ty \<Longrightarrow>
   getTypeHierarchy idx q
     = Some \<lparr> h_type = ty,
              parents = (case extends ty of Some es \<Rightarrow> es | None \<Rightarrow> [])
                        @ (case implements ty of Some is \<Rightarrow> is | None \<Rightarrow> []),
              children = children_of idx (name ty) \<rparr>"
  by (simp only: getTypeHierarchy_def children_foldl) (simp add: Let_def)

lemma getTypeHierarchy_children:
  "getTypeHierarchy idx q = Some h \<Longrightarrow>
   find (\<lambda>t. toLowerCase (name t) = toLowerCase q) idx = Some (h_type h) \<and>
   children h = children_of idx (name (h_type h))"
proof (cases "find (\<lambda>t. toLowerCase (name t) = toLowerCase q) idx")
  case None
  assume "getTypeHierarchy idx q = Some h"
  with None show ?thesis by (simp add: getTypeHierarchy_def)
next
  case (Some ty)
  assume "getTypeHierarchy idx q = Some h"
  with getTypeHierarchy_Some [OF Some] Some show ?thesis by auto
qed

lemma name_in_children_of:
  "t \<in> set idx \<Longrightarrow> some_includes (extends t) n \<or> some_includes (implements t) n \<Longrightarrow>
   name t \<in> set (children_of idx n)"
  by (auto simp: children_of_def)

lemma count_children_of:
  "t \<in> set idx \<Longrightarrow> some_includes (extends t) n \<Longrightarrow> some_includes (implements t) n \<Longrightarrow>
   2 \<le> count_list (children_of idx n) (name t)"
proof (induction idx)
  case Nil
  then show ?case by simp
next
  case (Cons a idx)
  have split: "children_of (a # idx) n
      = ((if some_includes (extends a) n then [name a] else [])
         @ (if some_includes (implements a) n then [name a] else [])) @ children_of idx n"
    by (simp add: children_of_def)
  show ?case
  proof (cases "t = a")
    case True
    with Cons.prems show ?thesis
      unfolding split by simp
  next
    case False
    with Cons have "2 \<le> count_list (children_of idx n) (name t)" by simp
    then show ?thesis
      unfolding split by simp
  qed
qed

text \<open>
  C8 (as amended). Let \<open>A\<close> and \<open>B\<close> be declarations of the index, and let the first declaration
  whose name equals the name of \<open>B\<close> without regard to case have that very name. If a string of
  the \<open>extends\<close> list or of the \<open>implements\<close> list of \<open>A\<close> contains the name of \<open>B\<close>, then
  \<open>getTypeHierarchy\<close> for the name of \<open>B\<close> returns a result whose \<open>children\<close> contain the name
  of \<open>A\<close>.
\<close>

theorem getTypeHierarchy_children_complete:
  "A \<in> set idx \<and> B \<in> set idx \<and>
   (some_includes (extends A) (name B) \<or> some_includes (implements A) (name B)) \<and>
   map_option name (find (\<lambda>t. toLowerCase (name t) = toLowerCase (name B)) idx) = Some (name B)
   \<longrightarrow> (\<exists>h. getTypeHierarchy idx (name B) = Some h \<and> name A \<in> set (children h))"
proof (intro impI, elim conjE)
  assume A: "A \<in> set idx"
    and inc: "some_includes (extends A) (name B) \<or> some_includes (implements A) (name B)"
    and f: "map_option name (find (\<lambda>t. toLowerCase (name t) = toLowerCase (name B)) idx) = Some (name B)"
  from f obtain ty where ty: "find (\<lambda>t. toLowerCase (name t) = toLowerCase (name B)) idx = Some ty"
    and n: "name ty = name B"
    by auto
  from name_in_children_of [OF A inc] n
  show "\<exists>h. getTypeHierarchy idx (name B) = Some h \<and> name A \<in> set (children h)"
    by (simp add: getTypeHierarchy_Some [OF ty])
qed

text \<open>
  C8 (as stated) fails. The lookup takes the first declaration whose name matches without
  regard to case, here the variable \<open>socket\<close>, and then compares with that name with regard to
  case: \<open>Client\<close> extends \<open>Socket\<close> and is no child in the result for \<open>Socket\<close>.
\<close>

theorem getTypeHierarchy_children_counterexample:
  "(ex_decl ''Client'' KClass ''Socket'')\<lparr>extends := Some [''Socket'']\<rparr> \<in> set ex_hier_case \<and>
   ex_decl ''Socket'' KInterface ''Types'' \<in> set ex_hier_case \<and>
   some_includes (extends ((ex_decl ''Client'' KClass ''Socket'')\<lparr>extends := Some [''Socket'']\<rparr>))
     (name (ex_decl ''Socket'' KInterface ''Types'')) \<and>
   map_option children (getTypeHierarchy ex_hier_case (name (ex_decl ''Socket'' KInterface ''Types'')))
     = Some []"
  by code_simp

lemma getTypeHierarchy_ex_hier_children: "map_option children (getTypeHierarchy ex_hier ''Node'') = Some [''Node'', ''Tree'', ''Tree'']"
  by code_simp

theorem getTypeHierarchy_children_complete_witness:
  "map_option children (getTypeHierarchy ex_hier ''Node'') = Some [''Node'', ''Tree'', ''Tree''] \<and>
   (\<exists>h. getTypeHierarchy ex_hier ''Node'' = Some h \<and> ''Tree'' \<in> set (children h))"
proof -
  let ?A = "(ex_decl ''Tree'' KClass ''Types'')
         \<lparr>extends := Some [''Node''], implements := Some [''Comparable<Node>'']\<rparr>"
  let ?B = "(ex_decl ''Node'' KInterface ''Types'')\<lparr>extends := Some [''Iterable<Node>'']\<rparr>"
  have "?A \<in> set ex_hier \<and> ?B \<in> set ex_hier \<and>
   (some_includes (extends ?A) (name ?B) \<or> some_includes (implements ?A) (name ?B)) \<and>
   map_option name (find (\<lambda>t. toLowerCase (name t) = toLowerCase (name ?B)) ex_hier) = Some (name ?B)"
    by code_simp
  with getTypeHierarchy_children_complete [of ?A ex_hier ?B]
  have "\<exists>h. getTypeHierarchy ex_hier (name ?B) = Some h \<and> name ?A \<in> set (children h)"
    by blast
  moreover have "name ?A = ''Tree''" "name ?B = ''Node''"
    by (simp_all add: ex_decl_def)
  ultimately show ?thesis
    using getTypeHierarchy_ex_hier_children by simp
qed

text \<open>
  C9. In a result of \<open>getTypeHierarchy\<close>, a declaration whose \<open>extends\<close> list and whose
  \<open>implements\<close> list each hold a string that contains the name of the target stands at least
  twice among the children; and when the target's own \<open>extends\<close> or \<open>implements\<close> list holds
  such a string, the target's name is among its own children.
\<close>

theorem getTypeHierarchy_children_duplicates_and_self:
  "getTypeHierarchy idx q = Some h \<longrightarrow>
     (\<forall>t\<in>set idx. some_includes (extends t) (name (h_type h)) \<and>
                   some_includes (implements t) (name (h_type h))
                   \<longrightarrow> 2 \<le> count_list (children h) (name t)) \<and>
     (some_includes (extends (h_type h)) (name (h_type h)) \<or>
      some_includes (implements (h_type h)) (name (h_type h))
        \<longrightarrow> name (h_type h) \<in> set (children h))"
proof (intro impI conjI ballI)
  fix t
  assume h: "getTypeHierarchy idx q = Some h" and t: "t \<in> set idx"
    and b: "some_includes (extends t) (name (h_type h)) \<and>
            some_includes (implements t) (name (h_type h))"
  from getTypeHierarchy_children [OF h] count_children_of [OF t] b
  show "2 \<le> count_list (children h) (name t)" by simp
next
  assume h: "getTypeHierarchy idx q = Some h"
    and s: "some_includes (extends (h_type h)) (name (h_type h)) \<or>
      some_includes (implements (h_type h)) (name (h_type h))"
  note c = getTypeHierarchy_children [OF h]
  then have "h_type h \<in> set idx"
    by (auto simp: find_Some_iff)
  from name_in_children_of [OF this s] c
  show "name (h_type h) \<in> set (children h)" by simp
qed

lemma getTypeHierarchy_ex_hier:
  "getTypeHierarchy ex_hier ''node''
     = Some \<lparr> h_type = (ex_decl ''Node'' KInterface ''Types'')\<lparr>extends := Some [''Iterable<Node>'']\<rparr>,
              parents = [''Iterable<Node>''],
              children = [''Node'', ''Tree'', ''Tree''] \<rparr>"
  by code_simp

theorem getTypeHierarchy_children_duplicates_and_self_witness:
  "\<exists>h. getTypeHierarchy ex_hier ''node'' = Some h \<and>
       children h = [''Node'', ''Tree'', ''Tree''] \<and>
       2 \<le> count_list (children h) ''Tree'' \<and>
       name (h_type h) = ''Node'' \<and> name (h_type h) \<in> set (children h)"
proof -
  let ?A = "(ex_decl ''Tree'' KClass ''Types'')
         \<lparr>extends := Some [''Node''], implements := Some [''Comparable<Node>'']\<rparr>"
  let ?B = "(ex_decl ''Node'' KInterface ''Types'')\<lparr>extends := Some [''Iterable<Node>'']\<rparr>"
  let ?h = "\<lparr> h_type = ?B, parents = [''Iterable<Node>''],
              children = [''Node'', ''Tree'', ''Tree''] \<rparr>"
  have sel: "h_type ?h = ?B" "children ?h = [''Node'', ''Tree'', ''Tree'']"
    by simp_all
  have names: "name ?A = ''Tree''" "name ?B = ''Node''"
    by (simp_all add: ex_decl_def)
  have A: "?A \<in> set ex_hier"
    by (simp add: ex_hier_def)
  have inc: "some_includes (extends ?A) (name ?B) \<and> some_includes (implements ?A) (name ?B)"
    "some_includes (extends ?B) (name ?B) \<or> some_includes (implements ?B) (name ?B)"
    by code_simp+
  note both = getTypeHierarchy_children_duplicates_and_self
    [of ex_hier "''node''" ?h, THEN mp, OF getTypeHierarchy_ex_hier, unfolded sel]
  from both A inc(1) have "2 \<le> count_list [''Node'', ''Tree'', ''Tree''] (name ?A)"
    by blast
  moreover from both inc(2) have "name ?B \<in> set [''Node'', ''Tree'', ''Tree'']"
    by blast
  ultimately have "getTypeHierarchy ex_hier ''node'' = Some ?h \<and>
       children ?h = [''Node'', ''Tree'', ''Tree''] \<and>
       2 \<le> count_list (children ?h) ''Tree'' \<and>
       name (h_type ?h) = ''Node'' \<and> name (h_type ?h) \<in> set (children ?h)"
    unfolding sel names using getTypeHierarchy_ex_hier by simp
  then show ?thesis ..
qed

subsection \<open>The empty query\<close>

lemma fuzzyScore_empty_query:
  "fuzzyScore (toLowerCase []) (split_ws (toLowerCase [])) t = (if name t = [] then 115 else 65)"
  by (simp add: fuzzyScore_def toLowerCase_def Let_def str_includes_empty)

lemma insort_key_append_less:
  "\<forall>y\<in>set as. f y < f x \<Longrightarrow> insort_key f x (as @ bs) = as @ insort_key f x bs"
  by (induction as) auto

lemma sort_key_two_classes:
  fixes f :: "'a \<Rightarrow> int"
  assumes "\<forall>x\<in>set xs. f x = a \<or> f x = b" and "a < b"
  shows "sort_key f xs = filter (\<lambda>x. f x = a) xs @ filter (\<lambda>x. f x = b) xs"
  using assms(1)
proof (induction xs)
  case Nil
  then show ?case by simp
next
  case (Cons x xs)
  let ?A = "filter (\<lambda>x. f x = a) xs" and ?B = "filter (\<lambda>x. f x = b) xs"
  from Cons have IH: "sort_key f xs = ?A @ ?B" by simp
  from Cons.prems have "f x = a \<or> f x = b" by simp
  then show ?case
  proof
    assume fx: "f x = a"
    with assms(2) have "\<forall>y\<in>set (?A @ ?B). f x \<le> f y" by auto
    then have "insort_key f x (?A @ ?B) = x # ?A @ ?B"
      by (rule insort_is_Cons)
    with fx assms(2) IH show ?thesis by simp
  next
    assume fx: "f x = b"
    with assms(2) have "\<forall>y\<in>set ?A. f y < f x" by auto
    then have "insort_key f x (?A @ ?B) = ?A @ insort_key f x ?B"
      by (rule insort_key_append_less)
    moreover from fx have "insort_key f x ?B = x # ?B"
      by (intro insort_is_Cons) auto
    ultimately show ?thesis
      using fx assms(2) IH by simp
  qed
qed

lemma ranking_empty_query:
  "sort_key (\<lambda>t. - code_score [] t) (filter (\<lambda>t. code_score [] t > 0) idx)
     = filter (\<lambda>t. name t = []) idx @ filter (\<lambda>t. name t \<noteq> []) idx"
proof -
  have sc: "code_score [] t = (if name t = [] then 115 else 65)" for t
    using fuzzyScore_code_score [of "[]" t] fuzzyScore_empty_query [of t] by simp
  have "filter (\<lambda>t. code_score [] t > 0) idx = idx"
    by (simp add: sc)
  moreover have "sort_key (\<lambda>t. - code_score [] t) idx
      = filter (\<lambda>t. - code_score [] t = - 115) idx @ filter (\<lambda>t. - code_score [] t = - 65) idx"
    by (rule sort_key_two_classes) (simp_all add: sc)
  moreover have "(- code_score [] t = - 115) = (name t = [])"
    "(- code_score [] t = - 65) = (name t \<noteq> [])" for t
    by (simp_all add: sc)
  ultimately show ?thesis by simp
qed

text \<open>
  C10 (as amended). For the empty query every candidate scores 65, or 115 when its name is
  empty, whether or not it has documentation: the empty token is contained in the empty
  documentation text too. So no declaration is left out, and the result is the first \<open>limit\<close>
  entries (the first 20 without a limit) of the index with the declarations of empty name
  moved to the front; when no name is empty, these are the first \<open>limit\<close> declarations in
  index order.
\<close>

theorem fuzzySearch_empty_query:
  "fuzzyScore (toLowerCase []) (split_ws (toLowerCase [])) t = (if name t = [] then 115 else 65) \<and>
   fuzzySearch idx [] None
     = take 20 (filter (\<lambda>t. name t = []) idx @ filter (\<lambda>t. name t \<noteq> []) idx) \<and>
   (0 \<le> limit \<longrightarrow>
      fuzzySearch idx [] (Some limit)
        = take (nat limit) (filter (\<lambda>t. name t = []) idx @ filter (\<lambda>t. name t \<noteq> []) idx)) \<and>
   (0 \<le> limit \<and> (\<forall>t\<in>set idx. name t \<noteq> []) \<longrightarrow>
      fuzzySearch idx [] (Some limit) = take (nat limit) idx)"
proof -
  have "filter (\<lambda>t. name t = []) idx @ filter (\<lambda>t. name t \<noteq> []) idx = idx"
    if "\<forall>t\<in>set idx. name t \<noteq> []"
  proof -
    from that have "filter (\<lambda>t. name t = []) idx = []" "filter (\<lambda>t. name t \<noteq> []) idx = idx"
      by (simp_all add: filter_empty_conv)
    then show ?thesis by simp
  qed
  then show ?thesis
    by (simp add: fuzzyScore_empty_query fuzzySearch_sort_key ranking_empty_query slice0_nonneg)
qed

lemma fuzzySearch_ex_index_docs:
  "fuzzySearch ex_index_docs [] (Some 1) = [ex_decl ''Alpha'' KInterface ''Types'']"
  by code_simp

theorem fuzzySearch_empty_query_witness:
  "(0::int) \<le> 1 \<and> map name ex_index_docs = [''Alpha'', ''Beta''] \<and>
   fuzzySearch ex_index_docs [] (Some 1) = take (nat 1) ex_index_docs \<and>
   fuzzySearch ex_index_docs [] (Some 1) = [ex_decl ''Alpha'' KInterface ''Types'']"
proof -
  have n: "map name ex_index_docs = [''Alpha'', ''Beta'']"
    by (simp add: ex_index_docs_def ex_decl_def)
  have h: "(0::int) \<le> 1 \<and> (\<forall>t\<in>set ex_index_docs. name t \<noteq> [])"
    by (simp add: ex_index_docs_def ex_decl_def)
  with fuzzySearch_empty_query [of "ex_decl ''Alpha'' KInterface ''Types''" ex_index_docs 1]
  have "fuzzySearch ex_index_docs [] (Some 1) = take (nat 1) ex_index_docs"
    by blast
  with n fuzzySearch_ex_index_docs show ?thesis by simp
qed

text \<open>
  C10 (as stated) fails: a declaration without documentation scores 65 like the documented
  one, and stays ahead of it in the result.
\<close>

theorem fuzzySearch_empty_query_counterexample:
  "docs (ex_decl ''Alpha'' KInterface ''Types'') = None \<and>
   fuzzyScore (toLowerCase []) (split_ws (toLowerCase [])) (ex_decl ''Alpha'' KInterface ''Types'') = 65 \<and>
   fuzzyScore (toLowerCase []) (split_ws (toLowerCase []))
     ((ex_decl ''Beta'' KInterface ''Types'')\<lparr>docs := Some ''A documented interface.''\<rparr>) = 65 \<and>
   fuzzySearch ex_index_docs [] (Some 2)
     = [ex_decl ''Alpha'' KInterface ''Types'',
        (ex_decl ''Beta'' KInterface ''Types'')\<lparr>docs := Some ''A documented interface.''\<rparr>]"
  by code_simp

subsection \<open>Type-text simplification\<close>























































end
